theory Spec2Isabelle
  imports Complex_Main
begin

section \<open>JSON values as the handlers see them\<close>

text \<open>
  \<^verbatim>\<open>request.get_json()\<close> hands the handlers a Python value: \<^verbatim>\<open>None\<close>, a bool, an
  int, a float, a str, a list or a dict. A dict is an association list read with
  \<open>map_of\<close>; a float is the number it denotes.
\<close>

datatype json =
    JNull
  | JBool bool
  | JInt int
  | JFloat real
  | JStr string
  | JArr "json list"
  | JObj "(string \<times> json) list"

datatype py_error = TypeError | KeyError

text \<open>Python truthiness, as used by \<^verbatim>\<open>not data\<close>.\<close>

fun truthy :: "json \<Rightarrow> bool" where
  "truthy JNull = False"
| "truthy (JBool b) = b"
| "truthy (JInt n) = (n \<noteq> 0)"
| "truthy (JFloat r) = (r \<noteq> 0)"
| "truthy (JStr s) = (s \<noteq> [])"
| "truthy (JArr xs) = (xs \<noteq> [])"
| "truthy (JObj kvs) = (kvs \<noteq> [])"

text \<open>\<^verbatim>\<open>sub in s\<close> on two strings: \<open>sub\<close> occurs in \<open>s\<close> as a contiguous block.\<close>

fun str_contains :: "string \<Rightarrow> string \<Rightarrow> bool" where
  "str_contains sub [] = (sub = [])"
| "str_contains sub (c # cs) = (take (length sub) (c # cs) = sub \<or> str_contains sub cs)"

text \<open>
  \<^verbatim>\<open>'name' in data\<close>: key membership on a dict, element membership on a list, substring
  on a str, and a \<^verbatim>\<open>TypeError\<close> on a value that is not a container.
\<close>

fun name_in :: "json \<Rightarrow> py_error + bool" where
  "name_in (JObj kvs) = Inr (''name'' \<in> set (map fst kvs))"
| "name_in (JArr xs) = Inr (JStr ''name'' \<in> set xs)"
| "name_in (JStr s) = Inr (str_contains ''name'' s)"
| "name_in JNull = Inl TypeError"
| "name_in (JBool b) = Inl TypeError"
| "name_in (JInt n) = Inl TypeError"
| "name_in (JFloat r) = Inl TypeError"

text \<open>\<^verbatim>\<open>data['name']\<close>: defined on a dict only; a str key on a list or a str raises.\<close>

fun get_name :: "json \<Rightarrow> py_error + json" where
  "get_name (JObj kvs) = (case map_of kvs ''name'' of None \<Rightarrow> Inl KeyError | Some v \<Rightarrow> Inr v)"
| "get_name JNull = Inl TypeError"
| "get_name (JBool b) = Inl TypeError"
| "get_name (JInt n) = Inl TypeError"
| "get_name (JFloat r) = Inl TypeError"
| "get_name (JStr s) = Inl TypeError"
| "get_name (JArr xs) = Inl TypeError"

section \<open>Items, the store and responses\<close>

text \<open>
  An item is the dict \<^verbatim>\<open>{'id': ..., 'name': ...}\<close>; the name is whatever value the request
  carried under \<^verbatim>\<open>'name'\<close>. The store is the module-level list \<^verbatim>\<open>items\<close>.
\<close>

record item =
  id' :: int
  name :: json

type_synonym store = "item list"

record response =
  status :: nat
  body :: json

definition item_json :: "item \<Rightarrow> json" where
  "item_json it = JObj [(''id'', JInt (id' it)), (''name'', name it)]"

definition bad_request :: response where
  "bad_request = \<lparr>status = 400,
     body = JObj [(''error'', JStr ''Bad Request''), (''message'', JStr ''Name is required'')]\<rparr>"

definition item_not_found :: response where
  "item_not_found = \<lparr>status = 404, body = JObj [(''error'', JStr ''Item not found'')]\<rparr>"

definition item_response :: "nat \<Rightarrow> item \<Rightarrow> response" where
  "item_response code it = \<lparr>status = code, body = JObj [(''item'', item_json it)]\<rparr>"

section \<open>The handlers of routes.py\<close>

text \<open>
  Each handler takes the store and returns the response, or the exception it raised, with
  the store it leaves behind.
\<close>

definition home :: "store \<Rightarrow> (py_error + response) \<times> store" where
  "home items =
     (Inr \<lparr>status = 200, body = JObj [(''message'', JStr ''Welcome to the Flask API!'')]\<rparr>, items)"

definition get_items :: "store \<Rightarrow> (py_error + response) \<times> store" where
  "get_items items =
     (Inr \<lparr>status = 200, body = JObj [(''items'', JArr (map item_json items))]\<rparr>, items)"

definition add_item :: "json option \<Rightarrow> store \<Rightarrow> (py_error + response) \<times> store" where
  "add_item data items =
     (case data of
        None \<Rightarrow> (Inr bad_request, items)
      | Some d \<Rightarrow>
          if \<not> truthy d then (Inr bad_request, items)
          else (case name_in d of
                  Inl e \<Rightarrow> (Inl e, items)
                | Inr False \<Rightarrow> (Inr bad_request, items)
                | Inr True \<Rightarrow>
                    (case get_name d of
                       Inl e \<Rightarrow> (Inl e, items)
                     | Inr v \<Rightarrow>
                         (let item = \<lparr>id' = int (length items) + 1, name = v\<rparr>
                          in (Inr (item_response 201 item), items @ [item])))))"

text \<open>
  \<^verbatim>\<open>next((item for item in items if item['id'] == item_id), None)\<close>: the first item with
  the id, if any. An item is a dict with two keys, so the test \<^verbatim>\<open>if item:\<close> that follows the
  scan in the handlers holds exactly when the scan found one.
\<close>

definition find_item :: "int \<Rightarrow> store \<Rightarrow> item option" where
  "find_item item_id items = find (\<lambda>item. id' item = item_id) items"

definition get_item :: "int \<Rightarrow> store \<Rightarrow> (py_error + response) \<times> store" where
  "get_item item_id items =
     (case find_item item_id items of
        Some item \<Rightarrow> (Inr (item_response 200 item), items)
      | None \<Rightarrow> (Inr item_not_found, items))"

text \<open>
  \<^verbatim>\<open>item['name'] = ...\<close> writes into the dict that the scan found, which is the first
  element of the list with that id: the list changes at that position only.
\<close>

fun set_name_first :: "int \<Rightarrow> json \<Rightarrow> store \<Rightarrow> store" where
  "set_name_first item_id v [] = []"
| "set_name_first item_id v (item # items) =
     (if id' item = item_id then item\<lparr>name := v\<rparr> # items
      else item # set_name_first item_id v items)"

definition update_item :: "int \<Rightarrow> json option \<Rightarrow> store \<Rightarrow> (py_error + response) \<times> store" where
  "update_item item_id data items =
     (case data of
        None \<Rightarrow> (Inr bad_request, items)
      | Some d \<Rightarrow>
          if \<not> truthy d then (Inr bad_request, items)
          else (case name_in d of
                  Inl e \<Rightarrow> (Inl e, items)
                | Inr False \<Rightarrow> (Inr bad_request, items)
                | Inr True \<Rightarrow>
                    (case find_item item_id items of
                       Some item \<Rightarrow>
                         (case get_name d of
                            Inl e \<Rightarrow> (Inl e, items)
                          | Inr v \<Rightarrow>
                              (Inr (item_response 200 (item\<lparr>name := v\<rparr>)),
                               set_name_first item_id v items))
                     | None \<Rightarrow> (Inr item_not_found, items))))"

definition delete_item :: "int \<Rightarrow> store \<Rightarrow> (py_error + response) \<times> store" where
  "delete_item item_id items =
     (case find_item item_id items of
        Some item \<Rightarrow>
          (Inr \<lparr>status = 200, body = JObj [(''message'', JStr ''Item deleted'')]\<rparr>,
           filter (\<lambda>itm. id' itm \<noteq> item_id) items)
      | None \<Rightarrow> (Inr item_not_found, items))"

section \<open>The application: routing and the error handlers of create_app\<close>

datatype request =
    Home
  | GetItems
  | AddItem "json option"
  | GetItem int
  | UpdateItem int "json option"
  | DeleteItem int
  | NoRoute

definition not_found :: response where
  "not_found = \<lparr>status = 404, body = JObj [(''error'', JStr ''Not found'')]\<rparr>"

definition internal_error :: response where
  "internal_error = \<lparr>status = 500, body = JObj [(''error'', JStr ''Internal server error'')]\<rparr>"

fun route :: "request \<Rightarrow> store \<Rightarrow> (py_error + response) \<times> store" where
  "route Home items = home items"
| "route GetItems items = get_items items"
| "route (AddItem data) items = add_item data items"
| "route (GetItem item_id) items = get_item item_id items"
| "route (UpdateItem item_id data) items = update_item item_id data items"
| "route (DeleteItem item_id) items = delete_item item_id items"
| "route NoRoute items = (Inr not_found, items)"

text \<open>An exception that leaves a handler is answered by the 500 handler.\<close>

definition serve :: "request \<Rightarrow> store \<Rightarrow> response \<times> store" where
  "serve req items =
     (case route req items of
        (Inl e, items') \<Rightarrow> (internal_error, items')
      | (Inr r, items') \<Rightarrow> (r, items'))"

text \<open>A session: the requests served one after the other, each on the store the last left.\<close>

fun run :: "request list \<Rightarrow> store \<Rightarrow> response list \<times> store" where
  "run [] items = ([], items)"
| "run (req # reqs) items =
     (case serve req items of
        (r, items') \<Rightarrow> (case run reqs items' of (rs, items'') \<Rightarrow> (r # rs, items'')))"

definition post_name :: "string \<Rightarrow> request" where
  "post_name s = AddItem (Some (JObj [(''name'', JStr s)]))"

section \<open>Sessions: what was deleted, what was created, and when\<close>

fun is_delete :: "request \<Rightarrow> bool" where
  "is_delete (DeleteItem item_id) = True"
| "is_delete req = False"

fun is_post :: "request \<Rightarrow> bool" where
  "is_post (AddItem data) = True"
| "is_post req = False"

text \<open>No DELETE of the session was answered 200.\<close>

fun no_successful_delete :: "request list \<Rightarrow> store \<Rightarrow> bool" where
  "no_successful_delete [] items = True"
| "no_successful_delete (req # reqs) items =
     (\<not> (is_delete req \<and> status (fst (serve req items)) = 200)
      \<and> no_successful_delete reqs (snd (serve req items)))"

text \<open>The number of POSTs of the session that were answered 201.\<close>

fun created :: "request list \<Rightarrow> store \<Rightarrow> nat" where
  "created [] items = 0"
| "created (req # reqs) items =
     (if is_post req \<and> status (fst (serve req items)) = 201 then 1 else 0)
     + created reqs (snd (serve req items))"

text \<open>
  The store with a history stamp on every item: the stamp of an item is the number of
  items created before it in the session. A POST that creates an item appends it with the
  next stamp, a PUT writes the names and keeps the stamps in place, a DELETE filters the
  stamped list as it filters the store.
\<close>

fun stamped_serve :: "request \<Rightarrow> nat \<times> (nat \<times> item) list \<Rightarrow> nat \<times> (nat \<times> item) list" where
  "stamped_serve (AddItem data) (n, gs) =
     (case add_item data (map snd gs) of
        (Inr r, items') \<Rightarrow> if status r = 201 then (Suc n, gs @ [(n, last items')]) else (n, gs)
      | (Inl e, items') \<Rightarrow> (n, gs))"
| "stamped_serve (UpdateItem item_id data) (n, gs) =
     (n, zip (map fst gs) (snd (update_item item_id data (map snd gs))))"
| "stamped_serve (DeleteItem item_id) (n, gs) =
     (case find_item item_id (map snd gs) of
        Some item \<Rightarrow> (n, filter (\<lambda>g. id' (snd g) \<noteq> item_id) gs)
      | None \<Rightarrow> (n, gs))"
| "stamped_serve Home (n, gs) = (n, gs)"
| "stamped_serve GetItems (n, gs) = (n, gs)"
| "stamped_serve (GetItem item_id) (n, gs) = (n, gs)"
| "stamped_serve NoRoute (n, gs) = (n, gs)"

fun stamped_run :: "request list \<Rightarrow> nat \<times> (nat \<times> item) list \<Rightarrow> nat \<times> (nat \<times> item) list" where
  "stamped_run [] st = st"
| "stamped_run (req # reqs) st = stamped_run reqs (stamped_serve req st)"

text \<open>Sessions in which a DELETE is followed by a POST.\<close>

definition delete_last_session :: "request list" where
  "delete_last_session = [post_name ''apple'', post_name ''banana'', DeleteItem 2]"

definition delete_first_session :: "request list" where
  "delete_first_session = [post_name ''apple'', post_name ''banana'', DeleteItem 1]"

definition duplicate_session :: "request list" where
  "duplicate_session =
     [post_name ''apple'', post_name ''banana'', post_name ''cherry'', DeleteItem 1,
      post_name ''date'']"

text \<open>
  The stamps of a stamped store are in order when they increase strictly along the list and
  stay below the next stamp to hand out.
\<close>

definition stamps_ok :: "nat \<times> (nat \<times> item) list \<Rightarrow> bool" where
  "stamps_ok st = (sorted_wrt (<) (map fst (snd st)) \<and> (\<forall>k \<in> set (map fst (snd st)). k < fst st))"

section \<open>Facts about the handlers\<close>

lemmas handler_defs =
  serve_def home_def get_items_def add_item_def get_item_def update_item_def delete_item_def
  find_item_def item_response_def item_json_def bad_request_def item_not_found_def
  not_found_def internal_error_def post_name_def

lemma find_item_None: "find_item item_id items = None \<longleftrightarrow> item_id \<notin> set (map id' items)"
  by (auto simp: find_item_def find_None_iff)

lemma find_item_Some: "find_item item_id items = Some item \<Longrightarrow> id' item = item_id \<and> item \<in> set items"
  by (auto simp: find_item_def find_Some_iff)

lemma name_in_obj: "map_of kvs ''name'' = Some v \<Longrightarrow> name_in (JObj kvs) = Inr True"
  by (force dest: map_of_SomeD simp: image_iff)

lemma obj_truthy: "map_of kvs ''name'' = Some v \<Longrightarrow> truthy (JObj kvs)"
  by auto

lemma add_item_ok: "map_of kvs ''name'' = Some v \<Longrightarrow> add_item (Some (JObj kvs)) items =
         (Inr (item_response 201 \<lparr>id' = int (length items) + 1, name = v\<rparr>),
          items @ [\<lparr>id' = int (length items) + 1, name = v\<rparr>])"
  using name_in_obj[of kvs v] obj_truthy[of kvs v] by (simp add: add_item_def Let_def)

lemma get_name_after_name_in:
  "name_in d = Inr True \<Longrightarrow> (\<exists>kvs v. d = JObj kvs \<and> map_of kvs ''name'' = Some v \<and> get_name d = Inr v) \<or> get_name d = Inl TypeError"
  by (cases d) (auto simp: map_of_eq_None_iff image_iff split: option.splits)

lemma add_item_cases:
  "add_item data items = (Inr bad_request, items) \<or> add_item data items = (Inl TypeError, items) \<or>
   (\<exists>kvs v. data = Some (JObj kvs) \<and> map_of kvs ''name'' = Some v \<and> add_item data items = (Inr (item_response 201 \<lparr>id' = int (length items) + 1, name = v\<rparr>),
          items @ [\<lparr>id' = int (length items) + 1, name = v\<rparr>]))"
proof (cases data)
  case None
  then show ?thesis by (simp add: add_item_def)
next
  case (Some d)
  show ?thesis
  proof (cases "truthy d")
    case False
    with Some show ?thesis by (simp add: add_item_def)
  next
    case True
    show ?thesis
    proof (cases "name_in d")
      case (Inl e)
      then have "e = TypeError" by (cases d) auto
      with Some True Inl show ?thesis by (simp add: add_item_def)
    next
      case (Inr b)
      show ?thesis
      proof (cases b)
        case False
        with Some True Inr show ?thesis by (simp add: add_item_def)
      next
        case b: True
        from get_name_after_name_in[of d] Inr b
        consider kvs v where "d = JObj kvs" "map_of kvs ''name'' = Some v" | "get_name d = Inl TypeError"
          by auto
        then show ?thesis
        proof cases
          case 1
          with Some add_item_ok[of kvs v items] show ?thesis by simp
        next
          case 2
          with Some True Inr b show ?thesis by (simp add: add_item_def)
        qed
      qed
    qed
  qed
qed

lemma set_name_first_split:
  "item_id \<in> set (map id' items) \<Longrightarrow>
   \<exists>pre item post. items = pre @ item # post \<and> item_id \<notin> set (map id' pre) \<and> id' item = item_id
      \<and> find_item item_id items = Some item
      \<and> set_name_first item_id v items = pre @ \<lparr>id' = item_id, name = v\<rparr> # post"
proof (induction items)
  case Nil
  then show ?case by simp
next
  case (Cons a items)
  show ?case
  proof (cases "id' a = item_id")
    case True
    then have "a # items = [] @ a # items \<and> item_id \<notin> set (map id' []) \<and> id' a = item_id
      \<and> find_item item_id (a # items) = Some a
      \<and> set_name_first item_id v (a # items) = [] @ \<lparr>id' = item_id, name = v\<rparr> # items"
      by (cases a) (simp add: find_item_def)
    then show ?thesis by blast
  next
    case False
    with Cons.prems have "item_id \<in> set (map id' items)" by auto
    from Cons.IH[OF this] obtain pre item post where
      h: "items = pre @ item # post" "item_id \<notin> set (map id' pre)" "id' item = item_id"
         "find_item item_id items = Some item"
         "set_name_first item_id v items = pre @ \<lparr>id' = item_id, name = v\<rparr> # post"
      by blast
    with False have "a # items = (a # pre) @ item # post \<and> item_id \<notin> set (map id' (a # pre)) \<and> id' item = item_id
      \<and> find_item item_id (a # items) = Some item
      \<and> set_name_first item_id v (a # items) = (a # pre) @ \<lparr>id' = item_id, name = v\<rparr> # post"
      by (auto simp: find_item_def)
    then show ?thesis by blast
  qed
qed

lemma set_name_first_ids: "map id' (set_name_first item_id v items) = map id' items"
  by (induction items) auto

lemma set_name_first_length: "length (set_name_first item_id v items) = length items"
  by (induction items) auto

lemma update_item_ok:
  assumes "map_of kvs ''name'' = Some v"
  shows "update_item item_id (Some (JObj kvs)) items =
     (case find_item item_id items of
        Some item \<Rightarrow> (Inr (item_response 200 (item\<lparr>name := v\<rparr>)), set_name_first item_id v items)
      | None \<Rightarrow> (Inr item_not_found, items))"
  using name_in_obj[OF assms] obj_truthy[OF assms] assms
  by (simp add: update_item_def split: option.splits)

lemma update_item_cases:
  "update_item item_id data items = (Inr bad_request, items) \<or>
   update_item item_id data items = (Inl TypeError, items) \<or>
   update_item item_id data items = (Inr item_not_found, items) \<or>
   (\<exists>v. update_item item_id data items =
      (Inr (item_response 200 \<lparr>id' = item_id, name = v\<rparr>), set_name_first item_id v items))"
proof (cases data)
  case None
  then show ?thesis by (simp add: update_item_def)
next
  case (Some d)
  show ?thesis
  proof (cases "truthy d")
    case False
    with Some show ?thesis by (simp add: update_item_def)
  next
    case True
    show ?thesis
    proof (cases "name_in d")
      case (Inl e)
      then have "e = TypeError" by (cases d) auto
      with Some True Inl show ?thesis by (simp add: update_item_def)
    next
      case (Inr b)
      show ?thesis
      proof (cases b)
        case False
        with Some True Inr show ?thesis by (simp add: update_item_def)
      next
        case b: True
        show ?thesis
        proof (cases "find_item item_id items")
          case None
          with Some True Inr b show ?thesis by (simp add: update_item_def)
        next
          case (Some item)
          then have i: "id' item = item_id" by (simp add: find_item_Some)
          then have r: "item\<lparr>name := v\<rparr> = \<lparr>id' = item_id, name = v\<rparr>" for v by (cases item) simp
          from get_name_after_name_in[of d] Inr b
          consider v where "get_name d = Inr v" | "get_name d = Inl TypeError"
            by auto
          then show ?thesis
          proof cases
            case 1
            with \<open>data = Some d\<close> True Inr b Some r
            have "update_item item_id data items =
              (Inr (item_response 200 \<lparr>id' = item_id, name = v\<rparr>), set_name_first item_id v items)"
              by (simp add: update_item_def)
            then show ?thesis by blast
          next
            case 2
            with \<open>data = Some d\<close> True Inr b Some show ?thesis by (simp add: update_item_def)
          qed
        qed
      qed
    qed
  qed
qed

lemma status_simps:
  "status bad_request = 400" "status item_not_found = 404" "status internal_error = 500"
  "status not_found = 404" "status (item_response code it) = code"
  by (simp_all add: bad_request_def item_not_found_def internal_error_def not_found_def item_response_def)

lemma delete_item_found:
  "item_id \<in> set (map id' items) \<Longrightarrow>
   delete_item item_id items =
     (Inr \<lparr>status = 200, body = JObj [(''message'', JStr ''Item deleted'')]\<rparr>,
      filter (\<lambda>itm. id' itm \<noteq> item_id) items)"
  using find_item_None[of item_id items] by (auto simp: delete_item_def split: option.splits)

lemma delete_item_missing:
  "item_id \<notin> set (map id' items) \<Longrightarrow> delete_item item_id items = (Inr item_not_found, items)"
  using find_item_None[of item_id items] by (simp add: delete_item_def)

lemma snd_run_Cons: "snd (run (req # reqs) items) = snd (run reqs (snd (serve req items)))"
  by (simp split: prod.splits)

lemma serve_length:
  assumes "\<not> (is_delete req \<and> status (fst (serve req items)) = 200)"
  shows "length (snd (serve req items)) =
         length items + (if is_post req \<and> status (fst (serve req items)) = 201 then 1 else 0)"
proof (cases req)
  case (AddItem data)
  with add_item_cases[of data items] show ?thesis
    by (auto simp: serve_def status_simps)
next
  case (UpdateItem item_id data)
  with update_item_cases[of item_id data items] show ?thesis
    by (auto simp: serve_def set_name_first_length)
next
  case (DeleteItem item_id)
  show ?thesis
  proof (cases "item_id \<in> set (map id' items)")
    case True
    with DeleteItem assms delete_item_found[of item_id items] show ?thesis
      by (simp add: serve_def)
  next
    case False
    with DeleteItem delete_item_missing[of item_id items] show ?thesis
      by (simp add: serve_def)
  qed
qed (simp_all add: serve_def home_def get_items_def get_item_def split: option.splits)

lemma serve_ids:
  assumes "\<not> (is_delete req \<and> status (fst (serve req items)) = 200)"
    and "map id' items = [1..int (length items)]"
  shows "map id' (snd (serve req items)) = [1..int (length (snd (serve req items)))]"
proof (cases req)
  case (AddItem data)
  have "[1..1 + int (length items)] = [1..int (length items)] @ [1 + int (length items)]"
    using upto_rec2[of 1 "1 + int (length items)"] by simp
  with AddItem assms(2) add_item_cases[of data items] show ?thesis
    by (auto simp: serve_def)
next
  case (UpdateItem item_id data)
  with assms(2) update_item_cases[of item_id data items] show ?thesis
    by (auto simp: serve_def set_name_first_length set_name_first_ids)
next
  case (DeleteItem item_id)
  show ?thesis
  proof (cases "item_id \<in> set (map id' items)")
    case True
    with DeleteItem assms(1) delete_item_found[of item_id items] show ?thesis
      by (simp add: serve_def)
  next
    case False
    with DeleteItem assms(2) delete_item_missing[of item_id items] show ?thesis
      by (simp add: serve_def)
  qed
qed (use assms(2) in \<open>simp_all add: serve_def home_def get_items_def get_item_def split: option.splits\<close>)

lemma run_length:
  "no_successful_delete reqs items \<Longrightarrow>
   length (snd (run reqs items)) = length items + created reqs items"
proof (induction reqs arbitrary: items)
  case Nil
  then show ?case by simp
next
  case (Cons req reqs)
  from Cons.prems have a: "\<not> (is_delete req \<and> status (fst (serve req items)) = 200)"
    and b: "no_successful_delete reqs (snd (serve req items))" by simp_all
  from Cons.IH[OF b] serve_length[OF a] show ?case
    by (simp only: snd_run_Cons created.simps)
qed

lemma run_ids:
  "no_successful_delete reqs items \<Longrightarrow> map id' items = [1..int (length items)] \<Longrightarrow>
   map id' (snd (run reqs items)) = [1..int (length (snd (run reqs items)))]"
proof (induction reqs arbitrary: items)
  case Nil
  then show ?case by simp
next
  case (Cons req reqs)
  from Cons.prems have a: "\<not> (is_delete req \<and> status (fst (serve req items)) = 200)"
    and b: "no_successful_delete reqs (snd (serve req items))" by simp_all
  from Cons.IH[OF b serve_ids[OF a Cons.prems(2)]] show ?case
    by (simp only: snd_run_Cons)
qed

lemma stamped_serve_erase:
  "map snd (snd (stamped_serve req (n, gs))) = snd (serve req (map snd gs))"
proof (cases req)
  case (AddItem data)
  with add_item_cases[of data "map snd gs"] show ?thesis
    by (auto simp: serve_def status_simps)
next
  case (UpdateItem item_id data)
  with update_item_cases[of item_id data "map snd gs"] show ?thesis
    by (auto simp: serve_def set_name_first_length)
next
  case (DeleteItem item_id)
  show ?thesis
  proof (cases "item_id \<in> set (map id' (map snd gs))")
    case True
    then obtain item where "find_item item_id (map snd gs) = Some item"
      using find_item_None[of item_id "map snd gs"] by auto
    with DeleteItem show ?thesis
      by (simp add: serve_def delete_item_def filter_map comp_def)
  next
    case False
    then have "find_item item_id (map snd gs) = None"
      using find_item_None[of item_id "map snd gs"] by simp
    with DeleteItem show ?thesis
      by (simp add: serve_def delete_item_def)
  qed
qed (simp_all add: serve_def home_def get_items_def get_item_def split: option.splits)

lemma stamped_serve_ok:
  assumes "stamps_ok (n, gs)"
  shows "stamps_ok (stamped_serve req (n, gs))"
proof (cases req)
  case (AddItem data)
  from assms have s: "sorted_wrt (<) (map fst gs)" and b: "\<And>k. k \<in> set (map fst gs) \<Longrightarrow> k < n"
    by (auto simp: stamps_ok_def)
  from add_item_cases[of data "map snd gs"]
  consider "stamped_serve req (n, gs) = (n, gs)"
    | it where "stamped_serve req (n, gs) = (Suc n, gs @ [(n, it)])"
    using AddItem by (auto simp: status_simps)
  then show ?thesis
  proof cases
    case 1
    with assms show ?thesis by simp
  next
    case 2
    have "sorted_wrt (<) (map fst gs @ [n])"
      using s b by (simp add: sorted_wrt_append)
    moreover have "\<forall>k \<in> set (map fst gs @ [n]). k < Suc n"
      using b by (auto simp: less_Suc_eq)
    ultimately show ?thesis using 2 by (simp add: stamps_ok_def)
  qed
next
  case (UpdateItem item_id data)
  have "length (snd (update_item item_id data (map snd gs))) = length gs"
    using update_item_cases[of item_id data "map snd gs"]
    by (auto simp: set_name_first_length)
  then have "map fst (zip (map fst gs) (snd (update_item item_id data (map snd gs)))) = map fst gs"
    by simp
  with UpdateItem assms show ?thesis
    by (simp add: stamps_ok_def)
next
  case (DeleteItem item_id)
  have "sorted_wrt (<) (map fst (filter P gs))" for P
    using assms by (simp add: stamps_ok_def sorted_wrt_map sorted_wrt_filter)
  with DeleteItem assms show ?thesis
    by (auto simp: stamps_ok_def split: option.splits)
qed (use assms in simp_all)

lemma stamped_run_ok: "stamps_ok st \<Longrightarrow> stamps_ok (stamped_run reqs st)"
proof (induction reqs arbitrary: st)
  case Nil
  then show ?case by simp
next
  case (Cons req reqs)
  then show ?case using stamped_serve_ok[of "fst st" "snd st" req] by simp
qed

lemma stamped_run_erase:
  "map snd (snd (stamped_run reqs st)) = snd (run reqs (map snd (snd st)))"
proof (induction reqs arbitrary: st)
  case Nil
  then show ?case by simp
next
  case (Cons req reqs)
  show ?case
    using Cons.IH[of "stamped_serve req st"] stamped_serve_erase[of req "fst st" "snd st"]
    by (simp only: snd_run_Cons stamped_run.simps prod.collapse)
qed

lemma serve_post_created:
  assumes "status (fst (serve (AddItem data) items)) = 201"
  shows "\<exists>v. serve (AddItem data) items =
           (item_response 201 \<lparr>id' = int (length items) + 1, name = v\<rparr>,
            items @ [\<lparr>id' = int (length items) + 1, name = v\<rparr>])"
  using assms add_item_cases[of data items]
  by (auto simp: serve_def status_simps)

lemma filter_id_distinct:
  "distinct (map id' items) \<Longrightarrow> item_id \<in> set (map id' items) \<Longrightarrow>
   length (filter (\<lambda>itm. id' itm = item_id) items) = 1"
proof (induction items)
  case Nil
  then show ?case by simp
next
  case (Cons a items)
  show ?case
  proof (cases "id' a = item_id")
    case True
    with Cons.prems have "item_id \<notin> set (map id' items)" by auto
    then have "filter (\<lambda>itm. id' itm = item_id) items = []"
      by (auto simp: filter_empty_conv)
    with True show ?thesis by simp
  next
    case False
    with Cons show ?thesis by auto
  qed
qed

lemma filter_id_at_most_one:
  "distinct (map id' items) \<Longrightarrow> length (filter (\<lambda>itm. id' itm = item_id) items) \<le> 1"
proof (cases "item_id \<in> set (map id' items)")
  case True
  assume "distinct (map id' items)"
  from filter_id_distinct[OF this True] show ?thesis by simp
next
  case False
  then have "filter (\<lambda>itm. id' itm = item_id) items = []"
    by (auto simp: filter_empty_conv)
  then show ?thesis by simp
qed

lemma find_app:
  "find P (xs @ ys) = (case find P xs of None \<Rightarrow> find P ys | Some x \<Rightarrow> Some x)"
  by (induction xs) auto

lemma fresh_id_without_delete:
  assumes "no_successful_delete reqs []"
  shows "int (length (snd (run reqs []))) + 1 \<notin> set (map id' (snd (run reqs [])))"
  using run_ids[OF assms] by simp

lemma add_item_rejects:
  "data = None \<or> (\<exists>d. data = Some d \<and> (\<not> truthy d \<or> name_in d = Inr False)) \<Longrightarrow>
   add_item data items = (Inr bad_request, items)"
  by (auto simp: add_item_def)

lemma update_item_rejects:
  "data = None \<or> (\<exists>d. data = Some d \<and> (\<not> truthy d \<or> name_in d = Inr False)) \<Longrightarrow>
   update_item item_id data items = (Inr bad_request, items)"
  by (auto simp: update_item_def)

lemma name_in_obj_False: "map_of kvs ''name'' = None \<Longrightarrow> name_in (JObj kvs) = Inr False"
  by (simp add: map_of_eq_None_iff)

lemma add_item_store: "snd (add_item data items) = items \<or> (\<exists>it. snd (add_item data items) = items @ [it])"
  using add_item_cases[of data items] by auto

lemma add_item_missing_key:
  "map_of kvs ''name'' = None \<Longrightarrow> add_item (Some (JObj kvs)) items = (Inr bad_request, items)"
  using name_in_obj_False[of kvs] by (simp add: add_item_def)

lemma update_item_missing_key:
  "map_of kvs ''name'' = None \<Longrightarrow>
   update_item item_id (Some (JObj kvs)) items = (Inr bad_request, items)"
  using name_in_obj_False[of kvs] by (simp add: update_item_def)

lemma delete_item_store:
  "snd (delete_item item_id items) = filter (\<lambda>itm. id' itm \<noteq> item_id) items"
proof (cases "item_id \<in> set (map id' items)")
  case True
  then show ?thesis by (simp add: delete_item_found)
next
  case False
  then have "filter (\<lambda>itm. id' itm \<noteq> item_id) items = items"
    by (auto simp: filter_id_conv)
  with False show ?thesis by (simp add: delete_item_missing)
qed

lemma serve_post_created_body:
  assumes "status (fst (serve (AddItem data) items)) = 201"
  shows "\<exists>kvs v. data = Some (JObj kvs) \<and> map_of kvs ''name'' = Some v"
  using assms add_item_cases[of data items]
  by (auto simp: serve_def status_simps)

lemma get_item_appended:
  assumes "item_id \<notin> set (map id' items)"
  shows "get_item item_id (items @ [\<lparr>id' = item_id, name = v\<rparr>]) =
           (Inr (item_response 200 \<lparr>id' = item_id, name = v\<rparr>),
            items @ [\<lparr>id' = item_id, name = v\<rparr>])"
proof -
  from assms have "find (\<lambda>item. id' item = item_id) items = None"
    using find_item_None[of item_id items] by (simp add: find_item_def)
  then have "find_item item_id (items @ [\<lparr>id' = item_id, name = v\<rparr>])
      = Some \<lparr>id' = item_id, name = v\<rparr>"
    by (simp add: find_item_def find_app)
  then show ?thesis by (simp add: get_item_def)
qed

section \<open>Creating items\<close>

text \<open>
  C1. A POST whose body is an object with the key \<^verbatim>\<open>name\<close> appends exactly one item to the
  store, with the id \<open>length + 1\<close> taken from the store as it is at that moment, and
  answers 201 with that item; a POST answered 201 has done exactly that, whatever the body
  was. The id comes from the length of the store and from no counter: after item 2 of two
  is deleted the next POST hands out 2 again.
\<close>

theorem add_item_appends:
  "(map_of kvs ''name'' = Some v \<longrightarrow>
      add_item (Some (JObj kvs)) items =
        (Inr (item_response 201 \<lparr>id' = int (length items) + 1, name = v\<rparr>),
         items @ [\<lparr>id' = int (length items) + 1, name = v\<rparr>]))
   \<and> (status (fst (serve (AddItem data) items)) = 201 \<longrightarrow>
        (\<exists>w. serve (AddItem data) items =
           (item_response 201 \<lparr>id' = int (length items) + 1, name = w\<rparr>,
            items @ [\<lparr>id' = int (length items) + 1, name = w\<rparr>])))
   \<and> fst (run (delete_last_session @ [post_name ''cherry'']) []) =
       [item_response 201 \<lparr>id' = 1, name = JStr ''apple''\<rparr>,
        item_response 201 \<lparr>id' = 2, name = JStr ''banana''\<rparr>,
        \<lparr>status = 200, body = JObj [(''message'', JStr ''Item deleted'')]\<rparr>,
        item_response 201 \<lparr>id' = 2, name = JStr ''cherry''\<rparr>]"
proof (intro conjI impI)
  assume "map_of kvs ''name'' = Some v"
  then show "add_item (Some (JObj kvs)) items =
        (Inr (item_response 201 \<lparr>id' = int (length items) + 1, name = v\<rparr>),
         items @ [\<lparr>id' = int (length items) + 1, name = v\<rparr>])"
    by (rule add_item_ok)
next
  assume "status (fst (serve (AddItem data) items)) = 201"
  then show "\<exists>w. serve (AddItem data) items =
           (item_response 201 \<lparr>id' = int (length items) + 1, name = w\<rparr>,
            items @ [\<lparr>id' = int (length items) + 1, name = w\<rparr>])"
    by (rule serve_post_created)
next
  show "fst (run (delete_last_session @ [post_name ''cherry'']) []) =
       [item_response 201 \<lparr>id' = 1, name = JStr ''apple''\<rparr>,
        item_response 201 \<lparr>id' = 2, name = JStr ''banana''\<rparr>,
        \<lparr>status = 200, body = JObj [(''message'', JStr ''Item deleted'')]\<rparr>,
        item_response 201 \<lparr>id' = 2, name = JStr ''cherry''\<rparr>]"
    by (simp add: delete_last_session_def handler_defs)
qed

text \<open>An instance: posting kiwi to a store holding one item.\<close>

theorem add_item_appends_witness:
  "map_of [(''name'', JStr ''kiwi'')] ''name'' = Some (JStr ''kiwi'')
   \<and> status (fst (serve (AddItem (Some (JObj [(''name'', JStr ''kiwi'')])))
        [\<lparr>id' = 1, name = JStr ''apple''\<rparr>])) = 201
   \<and> add_item (Some (JObj [(''name'', JStr ''kiwi'')])) [\<lparr>id' = 1, name = JStr ''apple''\<rparr>] =
       (Inr (item_response 201 \<lparr>id' = 2, name = JStr ''kiwi''\<rparr>),
        [\<lparr>id' = 1, name = JStr ''apple''\<rparr>, \<lparr>id' = 2, name = JStr ''kiwi''\<rparr>])"
  using add_item_appends [of "[(''name'', JStr ''kiwi'')]" "JStr ''kiwi''"
      "[\<lparr>id' = 1, name = JStr ''apple''\<rparr>]" "Some (JObj [(''name'', JStr ''kiwi'')])"]
  by (simp add: handler_defs)

text \<open>
  C2 as stated fails: after two creations and the deletion of item 1, the count of items
  ever created is 2, and the next POST hands out the id 2, not 3.
\<close>

theorem id_after_delete_counterexample:
  "created delete_first_session [] = 2
   \<and> fst (serve (post_name ''cherry'') (snd (run delete_first_session []))) =
       item_response 201 \<lparr>id' = 2, name = JStr ''cherry''\<rparr>
   \<and> fst (serve (post_name ''cherry'') (snd (run delete_first_session []))) \<noteq>
       item_response 201 \<lparr>id' = int (created delete_first_session []) + 1, name = JStr ''cherry''\<rparr>"
  by (simp add: delete_first_session_def handler_defs)

text \<open>
  C2, amended. In a session from the empty store in which no DELETE succeeded, the id that
  a successful POST hands out is the number of items created so far in the session plus 1.
\<close>

theorem id_is_creation_count_without_delete:
  assumes "no_successful_delete reqs []"
    and "status (fst (serve (AddItem data) (snd (run reqs [])))) = 201"
  shows "\<exists>v. fst (serve (AddItem data) (snd (run reqs []))) =
           item_response 201 \<lparr>id' = int (created reqs []) + 1, name = v\<rparr>"
proof -
  from run_length[OF assms(1)] have "length (snd (run reqs [])) = created reqs []" by simp
  with serve_post_created[OF assms(2)] show ?thesis by auto
qed

text \<open>An instance: two creations around a DELETE that finds nothing, then a third.\<close>

theorem id_is_creation_count_without_delete_witness:
  "no_successful_delete [post_name ''apple'', DeleteItem 7, post_name ''banana''] []
   \<and> status (fst (serve (post_name ''cherry'')
        (snd (run [post_name ''apple'', DeleteItem 7, post_name ''banana''] [])))) = 201
   \<and> created [post_name ''apple'', DeleteItem 7, post_name ''banana''] [] = 2
   \<and> fst (serve (post_name ''cherry'')
        (snd (run [post_name ''apple'', DeleteItem 7, post_name ''banana''] []))) =
       item_response 201 \<lparr>id' = 3, name = JStr ''cherry''\<rparr>"
  using id_is_creation_count_without_delete
    [of "[post_name ''apple'', DeleteItem 7, post_name ''banana'']" "Some (JObj [(''name'', JStr ''cherry'')])"]
  by (simp add: handler_defs)

section \<open>Reading an item back\<close>

text \<open>
  C4 as stated fails in a store that already holds an item with the id the POST hands out:
  after apple, banana and the deletion of item 1 the store holds banana under id 2; posting
  cherry creates a second item 2, and reading item 2 answers banana, the first match.
\<close>

theorem get_after_post_counterexample:
  "snd (run delete_first_session []) = [\<lparr>id' = 2, name = JStr ''banana''\<rparr>]
   \<and> serve (post_name ''cherry'') [\<lparr>id' = 2, name = JStr ''banana''\<rparr>] =
       (item_response 201 \<lparr>id' = 2, name = JStr ''cherry''\<rparr>,
        [\<lparr>id' = 2, name = JStr ''banana''\<rparr>, \<lparr>id' = 2, name = JStr ''cherry''\<rparr>])
   \<and> fst (serve (GetItem 2)
        [\<lparr>id' = 2, name = JStr ''banana''\<rparr>, \<lparr>id' = 2, name = JStr ''cherry''\<rparr>]) =
       item_response 200 \<lparr>id' = 2, name = JStr ''banana''\<rparr>
   \<and> JStr ''banana'' \<noteq> JStr ''cherry''"
  by (simp add: delete_first_session_def handler_defs)

text \<open>
  C4, amended. In a store that holds no item with the id \<open>length + 1\<close> (every store reached
  from the empty one without a successful DELETE is such a store), a POST whose body is an
  object carrying the value \<open>v\<close> under \<^verbatim>\<open>name\<close> is answered 201 with the id \<open>length + 1\<close>
  and the name \<open>v\<close>, and a GET of that id on the store it leaves answers 200 with the same id
  and the name \<open>v\<close>. Every POST answered 201 is of that kind: its body is such an object, and
  the name read back is the value the body carried.
\<close>

theorem get_after_post:
  assumes "int (length items) + 1 \<notin> set (map id' items)"
  shows "(map_of kvs ''name'' = Some v \<longrightarrow>
           serve (AddItem (Some (JObj kvs))) items =
             (item_response 201 \<lparr>id' = int (length items) + 1, name = v\<rparr>,
              items @ [\<lparr>id' = int (length items) + 1, name = v\<rparr>])
           \<and> serve (GetItem (int (length items) + 1))
                (snd (serve (AddItem (Some (JObj kvs))) items)) =
               (item_response 200 \<lparr>id' = int (length items) + 1, name = v\<rparr>,
                snd (serve (AddItem (Some (JObj kvs))) items)))
         \<and> (status (fst (serve (AddItem data) items)) = 201 \<longrightarrow>
              (\<exists>kvs' w. data = Some (JObj kvs') \<and> map_of kvs' ''name'' = Some w
                 \<and> fst (serve (AddItem data) items) =
                     item_response 201 \<lparr>id' = int (length items) + 1, name = w\<rparr>
                 \<and> fst (serve (GetItem (int (length items) + 1))
                      (snd (serve (AddItem data) items))) =
                     item_response 200 \<lparr>id' = int (length items) + 1, name = w\<rparr>))"
proof -
  have direct: "serve (AddItem (Some (JObj kvs))) items =
             (item_response 201 \<lparr>id' = int (length items) + 1, name = v\<rparr>,
              items @ [\<lparr>id' = int (length items) + 1, name = v\<rparr>])
           \<and> serve (GetItem (int (length items) + 1))
                (snd (serve (AddItem (Some (JObj kvs))) items)) =
               (item_response 200 \<lparr>id' = int (length items) + 1, name = v\<rparr>,
                snd (serve (AddItem (Some (JObj kvs))) items))"
    if "map_of kvs ''name'' = Some v" for kvs v
  proof -
    have p: "serve (AddItem (Some (JObj kvs))) items =
             (item_response 201 \<lparr>id' = int (length items) + 1, name = v\<rparr>,
              items @ [\<lparr>id' = int (length items) + 1, name = v\<rparr>])"
      by (simp add: serve_def add_item_ok[OF that])
    have "serve (GetItem (int (length items) + 1))
            (items @ [\<lparr>id' = int (length items) + 1, name = v\<rparr>]) =
          (item_response 200 \<lparr>id' = int (length items) + 1, name = v\<rparr>,
           items @ [\<lparr>id' = int (length items) + 1, name = v\<rparr>])"
      by (simp add: serve_def get_item_appended[OF assms])
    with p show ?thesis by simp
  qed
  have "\<exists>kvs' w. data = Some (JObj kvs') \<and> map_of kvs' ''name'' = Some w
                 \<and> fst (serve (AddItem data) items) =
                     item_response 201 \<lparr>id' = int (length items) + 1, name = w\<rparr>
                 \<and> fst (serve (GetItem (int (length items) + 1))
                      (snd (serve (AddItem data) items))) =
                     item_response 200 \<lparr>id' = int (length items) + 1, name = w\<rparr>"
    if "status (fst (serve (AddItem data) items)) = 201"
  proof -
    from serve_post_created_body[OF that] obtain kvs' w where
      b: "data = Some (JObj kvs')" "map_of kvs' ''name'' = Some w" by blast
    note d = direct[OF b(2)]
    have "fst (serve (AddItem (Some (JObj kvs'))) items) =
         item_response 201 \<lparr>id' = int (length items) + 1, name = w\<rparr>"
      using arg_cong[OF d[THEN conjunct1], of fst] by simp
    moreover have "fst (serve (GetItem (int (length items) + 1))
         (snd (serve (AddItem (Some (JObj kvs'))) items))) =
         item_response 200 \<lparr>id' = int (length items) + 1, name = w\<rparr>"
      using arg_cong[OF d[THEN conjunct2], of fst] by simp
    ultimately show ?thesis using b by blast
  qed
  with direct show ?thesis by blast
qed

text \<open>An instance: posting kiwi to a store holding item 1 and reading item 2.\<close>

theorem get_after_post_witness:
  "int (length [\<lparr>id' = 1, name = JStr ''apple''\<rparr>]) + 1 \<notin> set (map id' [\<lparr>id' = 1, name = JStr ''apple''\<rparr>])
   \<and> map_of [(''name'', JStr ''kiwi'')] ''name'' = Some (JStr ''kiwi'')
   \<and> status (fst (serve (post_name ''kiwi'') [\<lparr>id' = 1, name = JStr ''apple''\<rparr>])) = 201
   \<and> serve (GetItem 2) (snd (serve (post_name ''kiwi'') [\<lparr>id' = 1, name = JStr ''apple''\<rparr>])) =
       (item_response 200 \<lparr>id' = 2, name = JStr ''kiwi''\<rparr>,
        [\<lparr>id' = 1, name = JStr ''apple''\<rparr>, \<lparr>id' = 2, name = JStr ''kiwi''\<rparr>])"
  using get_after_post [of "[\<lparr>id' = 1, name = JStr ''apple''\<rparr>]" "[(''name'', JStr ''kiwi'')]"
      "JStr ''kiwi''" "Some (JObj [(''name'', JStr ''kiwi'')])"]
  by (simp add: handler_defs)

section \<open>Bodies without a name\<close>

text \<open>
  C5. The handler answers 400 and leaves the store alone when the body is absent, falsy,
  or a dict, list or str without \<^verbatim>\<open>'name'\<close> (\<open>add_item_rejects\<close>, \<open>add_item_missing_key\<close>).
  A body that is a non-zero number lacks the key as well, and there the membership test
  raises: the POST is answered 500, not 400, on every store.
\<close>

theorem add_item_number_body:
  "add_item (Some (JInt 5)) items = (Inl TypeError, items)
   \<and> serve (AddItem (Some (JInt 5))) items = (internal_error, items)
   \<and> status internal_error = 500"
  by (simp add: add_item_def serve_def internal_error_def)

text \<open>
  C10. The body is checked before the id is looked up, so a PUT with an absent or falsy
  body, or a dict without the key, answers 400 on any id (\<open>update_item_rejects\<close>,
  \<open>update_item_missing_key\<close>). On a non-zero number the same membership test raises, and the
  PUT is answered 500, not 400, whether the id exists or not.
\<close>

theorem update_item_number_body:
  "update_item item_id (Some (JInt 5)) items = (Inl TypeError, items)
   \<and> serve (UpdateItem item_id (Some (JInt 5))) items = (internal_error, items)
   \<and> status internal_error = 500"
  by (simp add: update_item_def serve_def internal_error_def)

section \<open>Updating an item\<close>

text \<open>
  C6. For a PUT whose body is an object with the key \<^verbatim>\<open>name\<close>: when the store holds the id,
  the first item with that id gets the supplied name, keeps its id, and every other item
  stays as and where it was, and the answer is 200 with the updated item; when the store
  does not hold the id, the answer is 404 and the store is the same.
\<close>

theorem update_item_effect:
  assumes "map_of kvs ''name'' = Some v"
  shows "(item_id \<in> set (map id' items) \<longrightarrow>
           (\<exists>pre item post.
              items = pre @ item # post \<and> item_id \<notin> set (map id' pre) \<and> id' item = item_id
              \<and> update_item item_id (Some (JObj kvs)) items =
                  (Inr (item_response 200 \<lparr>id' = item_id, name = v\<rparr>),
                   pre @ \<lparr>id' = item_id, name = v\<rparr> # post)))
         \<and> (item_id \<notin> set (map id' items) \<longrightarrow>
              update_item item_id (Some (JObj kvs)) items = (Inr item_not_found, items))"
proof (intro conjI impI)
  assume "item_id \<notin> set (map id' items)"
  then have "find_item item_id items = None" by (simp add: find_item_None)
  then show "update_item item_id (Some (JObj kvs)) items = (Inr item_not_found, items)"
    by (simp add: update_item_ok[OF assms])
next
  assume "item_id \<in> set (map id' items)"
  from set_name_first_split[OF this, of v] obtain pre item post where
    h: "items = pre @ item # post" "item_id \<notin> set (map id' pre)" "id' item = item_id"
       "find_item item_id items = Some item"
       "set_name_first item_id v items = pre @ \<lparr>id' = item_id, name = v\<rparr> # post"
    by blast
  from h(3) have "item\<lparr>name := v\<rparr> = \<lparr>id' = item_id, name = v\<rparr>" by (cases item) simp
  with h(4,5) have "update_item item_id (Some (JObj kvs)) items =
                  (Inr (item_response 200 \<lparr>id' = item_id, name = v\<rparr>),
                   pre @ \<lparr>id' = item_id, name = v\<rparr> # post)"
    by (simp add: update_item_ok[OF assms])
  with h(1,2,3) show "\<exists>pre item post.
              items = pre @ item # post \<and> item_id \<notin> set (map id' pre) \<and> id' item = item_id
              \<and> update_item item_id (Some (JObj kvs)) items =
                  (Inr (item_response 200 \<lparr>id' = item_id, name = v\<rparr>),
                   pre @ \<lparr>id' = item_id, name = v\<rparr> # post)"
    by blast
qed

text \<open>An instance with a repeated id: only the first item 2 is renamed.\<close>

theorem update_item_effect_witness:
  "map_of [(''name'', JStr ''pear'')] ''name'' = Some (JStr ''pear'')
   \<and> 2 \<in> set (map id' [\<lparr>id' = 1, name = JStr ''apple''\<rparr>, \<lparr>id' = 2, name = JStr ''banana''\<rparr>,
                         \<lparr>id' = 2, name = JStr ''cherry''\<rparr>])
   \<and> 7 \<notin> set (map id' [\<lparr>id' = 1, name = JStr ''apple''\<rparr>, \<lparr>id' = 2, name = JStr ''banana''\<rparr>,
                         \<lparr>id' = 2, name = JStr ''cherry''\<rparr>])
   \<and> update_item 2 (Some (JObj [(''name'', JStr ''pear'')]))
        [\<lparr>id' = 1, name = JStr ''apple''\<rparr>, \<lparr>id' = 2, name = JStr ''banana''\<rparr>,
         \<lparr>id' = 2, name = JStr ''cherry''\<rparr>] =
       (Inr (item_response 200 \<lparr>id' = 2, name = JStr ''pear''\<rparr>),
        [\<lparr>id' = 1, name = JStr ''apple''\<rparr>, \<lparr>id' = 2, name = JStr ''pear''\<rparr>,
         \<lparr>id' = 2, name = JStr ''cherry''\<rparr>])
   \<and> update_item 7 (Some (JObj [(''name'', JStr ''pear'')]))
        [\<lparr>id' = 1, name = JStr ''apple''\<rparr>, \<lparr>id' = 2, name = JStr ''banana''\<rparr>,
         \<lparr>id' = 2, name = JStr ''cherry''\<rparr>] =
       (Inr item_not_found,
        [\<lparr>id' = 1, name = JStr ''apple''\<rparr>, \<lparr>id' = 2, name = JStr ''banana''\<rparr>,
         \<lparr>id' = 2, name = JStr ''cherry''\<rparr>])"
  using update_item_effect [of "[(''name'', JStr ''pear'')]" "JStr ''pear''" 2
      "[\<lparr>id' = 1, name = JStr ''apple''\<rparr>, \<lparr>id' = 2, name = JStr ''banana''\<rparr>,
        \<lparr>id' = 2, name = JStr ''cherry''\<rparr>]"]
    update_item_effect [of "[(''name'', JStr ''pear'')]" "JStr ''pear''" 7
      "[\<lparr>id' = 1, name = JStr ''apple''\<rparr>, \<lparr>id' = 2, name = JStr ''banana''\<rparr>,
        \<lparr>id' = 2, name = JStr ''cherry''\<rparr>]"]
  by (simp add: handler_defs)

section \<open>Deleting an item\<close>

text \<open>
  C3 as stated fails in a store where an id occurs twice: the session of five requests
  leaves banana under id 2 and cherry and date both under id 3, and deleting item 3 takes
  two items out, so the length drops from 3 to 1.
\<close>

theorem delete_duplicate_id_counterexample:
  "snd (run duplicate_session []) =
     [\<lparr>id' = 2, name = JStr ''banana''\<rparr>, \<lparr>id' = 3, name = JStr ''cherry''\<rparr>,
      \<lparr>id' = 3, name = JStr ''date''\<rparr>]
   \<and> serve (DeleteItem 3) (snd (run duplicate_session [])) =
       (\<lparr>status = 200, body = JObj [(''message'', JStr ''Item deleted'')]\<rparr>,
        [\<lparr>id' = 2, name = JStr ''banana''\<rparr>])
   \<and> length (snd (serve (DeleteItem 3) (snd (run duplicate_session [])))) \<noteq>
       length (snd (run duplicate_session [])) - 1"
  by (simp add: duplicate_session_def handler_defs)

text \<open>
  C3, amended. A DELETE of an id that the store holds removes every item with that id and
  nothing else, which is exactly one item when the ids of the store are pairwise distinct,
  answers 200, and a GET of that id on the store it leaves answers 404; a DELETE of an id
  that the store does not hold answers 404 and leaves the store as it was.
\<close>

theorem delete_item_effect:
  "(item_id \<in> set (map id' items) \<longrightarrow>
      delete_item item_id items =
        (Inr \<lparr>status = 200, body = JObj [(''message'', JStr ''Item deleted'')]\<rparr>,
         filter (\<lambda>itm. id' itm \<noteq> item_id) items)
      \<and> length (snd (delete_item item_id items))
          + length (filter (\<lambda>itm. id' itm = item_id) items) = length items
      \<and> (distinct (map id' items) \<longrightarrow>
            length (snd (delete_item item_id items)) + 1 = length items)
      \<and> get_item item_id (snd (delete_item item_id items)) =
          (Inr item_not_found, snd (delete_item item_id items)))
   \<and> (item_id \<notin> set (map id' items) \<longrightarrow>
        delete_item item_id items = (Inr item_not_found, items))"
proof (intro conjI impI)
  assume "item_id \<notin> set (map id' items)"
  then show "delete_item item_id items = (Inr item_not_found, items)"
    by (rule delete_item_missing)
next
  assume h: "item_id \<in> set (map id' items)"
  note d = delete_item_found[OF h]
  show "delete_item item_id items =
        (Inr \<lparr>status = 200, body = JObj [(''message'', JStr ''Item deleted'')]\<rparr>,
         filter (\<lambda>itm. id' itm \<noteq> item_id) items)"
    by (rule d)
  show l: "length (snd (delete_item item_id items))
          + length (filter (\<lambda>itm. id' itm = item_id) items) = length items"
    using sum_length_filter_compl[of "\<lambda>itm. id' itm = item_id" items] by (simp add: d)
  show "get_item item_id (snd (delete_item item_id items)) =
          (Inr item_not_found, snd (delete_item item_id items))"
  proof -
    have "find_item item_id (filter (\<lambda>itm. id' itm \<noteq> item_id) items) = None"
      using find_item_None[of item_id "filter (\<lambda>itm. id' itm \<noteq> item_id) items"] by auto
    then show ?thesis by (simp add: d get_item_def)
  qed
  assume "distinct (map id' items)"
  from filter_id_distinct[OF this h] l
  show "length (snd (delete_item item_id items)) + 1 = length items" by simp
qed

text \<open>An instance: deleting item 1 of two, and deleting an item 5 that is not there.\<close>

theorem delete_item_effect_witness:
  "1 \<in> set (map id' [\<lparr>id' = 1, name = JStr ''apple''\<rparr>, \<lparr>id' = 2, name = JStr ''banana''\<rparr>])
   \<and> distinct (map id' [\<lparr>id' = 1, name = JStr ''apple''\<rparr>, \<lparr>id' = 2, name = JStr ''banana''\<rparr>])
   \<and> 5 \<notin> set (map id' [\<lparr>id' = 1, name = JStr ''apple''\<rparr>, \<lparr>id' = 2, name = JStr ''banana''\<rparr>])
   \<and> delete_item 1 [\<lparr>id' = 1, name = JStr ''apple''\<rparr>, \<lparr>id' = 2, name = JStr ''banana''\<rparr>] =
       (Inr \<lparr>status = 200, body = JObj [(''message'', JStr ''Item deleted'')]\<rparr>,
        [\<lparr>id' = 2, name = JStr ''banana''\<rparr>])
   \<and> get_item 1 [\<lparr>id' = 2, name = JStr ''banana''\<rparr>] =
       (Inr item_not_found, [\<lparr>id' = 2, name = JStr ''banana''\<rparr>])
   \<and> delete_item 5 [\<lparr>id' = 1, name = JStr ''apple''\<rparr>, \<lparr>id' = 2, name = JStr ''banana''\<rparr>] =
       (Inr item_not_found,
        [\<lparr>id' = 1, name = JStr ''apple''\<rparr>, \<lparr>id' = 2, name = JStr ''banana''\<rparr>])"
  using delete_item_effect
      [of 1 "[\<lparr>id' = 1, name = JStr ''apple''\<rparr>, \<lparr>id' = 2, name = JStr ''banana''\<rparr>]"]
    delete_item_effect
      [of 5 "[\<lparr>id' = 1, name = JStr ''apple''\<rparr>, \<lparr>id' = 2, name = JStr ''banana''\<rparr>]"]
  by (simp add: handler_defs)

section \<open>Sessions without a successful DELETE\<close>

text \<open>
  C7. After a session from the empty store in which no DELETE succeeded, the ids in the
  store are 1, 2, ... in store order: pairwise distinct and strictly increasing, every
  further successful POST appends an item whose id is above all ids in the store, and no
  id matches more than one item.
\<close>

theorem ids_increasing_without_delete:
  assumes "no_successful_delete reqs []"
  shows "map id' (snd (run reqs [])) = [1..int (length (snd (run reqs [])))]
         \<and> distinct (map id' (snd (run reqs [])))
         \<and> sorted_wrt (<) (map id' (snd (run reqs [])))
         \<and> (\<forall>data. status (fst (serve (AddItem data) (snd (run reqs [])))) = 201 \<longrightarrow>
               (\<exists>it. snd (serve (AddItem data) (snd (run reqs []))) = snd (run reqs []) @ [it]
                  \<and> (\<forall>old \<in> set (snd (run reqs [])). id' old < id' it)))
         \<and> (\<forall>item_id. length (filter (\<lambda>it. id' it = item_id) (snd (run reqs []))) \<le> 1)"
proof -
  let ?S = "snd (run reqs [])"
  have ids: "map id' ?S = [1..int (length ?S)]"
    using run_ids[OF assms] by simp
  then have d: "distinct (map id' ?S)" by simp
  from ids have s: "sorted_wrt (<) (map id' ?S)"
    by (simp add: strict_sorted_iff)
  have b: "id' old < int (length ?S) + 1" if "old \<in> set ?S" for old
  proof -
    from that have "id' old \<in> set (map id' ?S)" by simp
    then have "id' old \<in> set [1..int (length ?S)]" by (simp only: ids)
    then show ?thesis by simp
  qed
  have p: "\<exists>it. snd (serve (AddItem data) ?S) = ?S @ [it] \<and> (\<forall>old \<in> set ?S. id' old < id' it)"
    if "status (fst (serve (AddItem data) ?S)) = 201" for data
  proof -
    from serve_post_created[OF that] obtain v where
      "snd (serve (AddItem data) ?S) = ?S @ [\<lparr>id' = int (length ?S) + 1, name = v\<rparr>]"
      by auto
    moreover have "\<forall>old \<in> set ?S. id' old < id' \<lparr>id' = int (length ?S) + 1, name = v\<rparr>"
      using b by simp
    ultimately show ?thesis by blast
  qed
  from ids d s p filter_id_at_most_one[OF d] show ?thesis by blast
qed

text \<open>An instance: a creation, a rename, a DELETE that finds nothing, a creation.\<close>

theorem ids_increasing_without_delete_witness:
  "no_successful_delete [post_name ''apple'', UpdateItem 1 (Some (JObj [(''name'', JStr ''pear'')])),
      DeleteItem 7, post_name ''banana''] []
   \<and> map id' (snd (run [post_name ''apple'', UpdateItem 1 (Some (JObj [(''name'', JStr ''pear'')])),
      DeleteItem 7, post_name ''banana''] [])) = [1, 2]
   \<and> status (fst (serve (post_name ''cherry'')
        (snd (run [post_name ''apple'', UpdateItem 1 (Some (JObj [(''name'', JStr ''pear'')])),
          DeleteItem 7, post_name ''banana''] [])))) = 201
   \<and> snd (serve (post_name ''cherry'')
        (snd (run [post_name ''apple'', UpdateItem 1 (Some (JObj [(''name'', JStr ''pear'')])),
          DeleteItem 7, post_name ''banana''] []))) =
       [\<lparr>id' = 1, name = JStr ''pear''\<rparr>, \<lparr>id' = 2, name = JStr ''banana''\<rparr>,
        \<lparr>id' = 3, name = JStr ''cherry''\<rparr>]"
  using ids_increasing_without_delete
    [of "[post_name ''apple'', UpdateItem 1 (Some (JObj [(''name'', JStr ''pear'')])),
      DeleteItem 7, post_name ''banana'']"]
  by (simp add: handler_defs)

section \<open>Listing the items\<close>

text \<open>
  C8. GET /items answers 200 with all the items of the store, in store order, and leaves
  the store as it was. A DELETE leaves the items of the other ids, in the order they had.
  After any session from the empty store, store order is creation order: the store is the
  stamped store without its stamps, and the stamps, handed out in creation order, increase
  strictly along the list, deletions or not.
\<close>

theorem get_items_insertion_order:
  "get_items items =
     (Inr \<lparr>status = 200, body = JObj [(''items'', JArr (map item_json items))]\<rparr>, items)
   \<and> snd (serve (DeleteItem item_id) items) = filter (\<lambda>itm. id' itm \<noteq> item_id) items
   \<and> serve GetItems (snd (run reqs [])) =
       (\<lparr>status = 200,
         body = JObj [(''items'', JArr (map item_json (map snd (snd (stamped_run reqs (0, []))))))]\<rparr>,
        snd (run reqs []))
   \<and> map snd (snd (stamped_run reqs (0, []))) = snd (run reqs [])
   \<and> sorted_wrt (<) (map fst (snd (stamped_run reqs (0, []))))"
proof -
  have "stamps_ok (0, [])" by (simp add: stamps_ok_def)
  from stamped_run_ok[OF this, of reqs]
  have "sorted_wrt (<) (map fst (snd (stamped_run reqs (0, []))))"
    by (simp add: stamps_ok_def)
  moreover have "map snd (snd (stamped_run reqs (0, []))) = snd (run reqs [])"
    using stamped_run_erase[of reqs "(0, [])"] by simp
  moreover have "snd (serve (DeleteItem item_id) items) = filter (\<lambda>itm. id' itm \<noteq> item_id) items"
    using delete_item_store[of item_id items]
    by (cases "delete_item item_id items") (auto simp: serve_def split: sum.splits)
  ultimately show ?thesis
    by (simp add: get_items_def serve_def)
qed

section \<open>The concrete scenario\<close>

text \<open>
  C9. From the empty store, posting apple, posting banana, listing, deleting item 1 and
  reading item 1 answers 201 with item 1 apple, 201 with item 2 banana, 200 with both items
  in that order, 200 with the deletion message, and 404 with the item-not-found error.
\<close>

theorem scenario_apple_banana:
  "fst (run [post_name ''apple'', post_name ''banana'', GetItems, DeleteItem 1, GetItem 1] []) =
     [\<lparr>status = 201, body = JObj [(''item'', JObj [(''id'', JInt 1), (''name'', JStr ''apple'')])]\<rparr>,
      \<lparr>status = 201, body = JObj [(''item'', JObj [(''id'', JInt 2), (''name'', JStr ''banana'')])]\<rparr>,
      \<lparr>status = 200, body = JObj [(''items'',
          JArr [JObj [(''id'', JInt 1), (''name'', JStr ''apple'')],
                JObj [(''id'', JInt 2), (''name'', JStr ''banana'')]])]\<rparr>,
      \<lparr>status = 200, body = JObj [(''message'', JStr ''Item deleted'')]\<rparr>,
      \<lparr>status = 404, body = JObj [(''error'', JStr ''Item not found'')]\<rparr>]"
  by (simp add: handler_defs)

end
